theory Spec2Isabelle
  imports Main "HOL-Library.Word" "HOL-Library.Monad_Syntax" "HOL-Library.Sublist"
begin

section \<open>Data model of \<open>src/App.tsx\<close>\<close>

text \<open>
  A JavaScript string is a sequence of UTF-16 code units; \<open>.length\<close> counts code units
  and \<open>===\<close> compares the sequences. \<open>js\<close> embeds an ASCII literal of the source.
\<close>

type_synonym jsstring = "16 word list"

definition js :: "string \<Rightarrow> jsstring" where
  "js s = map (\<lambda>c. word_of_nat (of_char c)) s"

text \<open>\<^verbatim>\<open>type AuthMode = 'none' | 'patient' | 'doctor'\<close>\<close>

datatype AuthMode = mode_none | mode_patient | mode_doctor

text \<open>The type of the field \<^verbatim>\<open>status: 'pending' | 'done'\<close>.\<close>

datatype Status = status_pending | status_done

text \<open>
  \<^verbatim>\<open>Omit<Appointment, 'id' | 'status' | 'createdAt'>\<close>, the argument of \<open>addAppointment\<close>,
  and \<^verbatim>\<open>type Appointment\<close>, which extends it. The field \<open>id\<close> is written \<open>id_app\<close>.
  \<open>createdAt\<close> holds a value of \<open>Date.now()\<close>, an integral number of milliseconds.
\<close>

record AppointmentDraft =
  patientName :: jsstring
  email :: jsstring
  phone :: jsstring
  service :: jsstring
  date :: jsstring

record Appointment = AppointmentDraft +
  id_app :: jsstring
  status :: Status
  createdAt :: int

text \<open>
  The state of the component \<open>App\<close> (its four \<open>useState\<close> cells) together with the
  browser's \<open>localStorage\<close>, a map from keys to strings.
\<close>

record App_state =
  authMode :: AuthMode
  showAuthModal :: bool
  appointments :: "Appointment list"
  isMenuOpen :: bool
  localStorage :: "jsstring \<rightharpoonup> jsstring"

text \<open>
  The state of the component \<open>AuthModal\<close>; its cell \<open>email\<close> is written \<open>email_auth\<close>.
\<close>

record AuthModal_state =
  isLogin :: bool
  email_auth :: jsstring
  password :: jsstring
  error :: jsstring

section \<open>\<open>JSON.stringify\<close> on an array of appointments\<close>

text \<open>
  \<open>QuoteJSONString\<close> of ECMA-262: the seven characters of the escape table get their
  two-character escape, every other code unit below \<open>0x20\<close> and every surrogate that is
  not half of a pair gets \<open>\uXXXX\<close> in lower-case hexadecimal, everything else is copied.
\<close>

definition is_lead :: "16 word \<Rightarrow> bool" where
  "is_lead c \<longleftrightarrow> 0xD800 \<le> unat c \<and> unat c \<le> 0xDBFF"

definition is_trail :: "16 word \<Rightarrow> bool" where
  "is_trail c \<longleftrightarrow> 0xDC00 \<le> unat c \<and> unat c \<le> 0xDFFF"

definition hexdigit :: "nat \<Rightarrow> 16 word" where
  "hexdigit n = (if n < 10 then word_of_nat (48 + n) else word_of_nat (87 + n))"

definition UnicodeEscape :: "16 word \<Rightarrow> jsstring" where
  "UnicodeEscape c =
     [0x5C, 0x75, hexdigit (unat c div 4096 mod 16), hexdigit (unat c div 256 mod 16),
      hexdigit (unat c div 16 mod 16), hexdigit (unat c mod 16)]"

definition escape_unit :: "16 word \<Rightarrow> jsstring" where
  "escape_unit c =
     (if c = 0x08 then [0x5C, 0x62]
      else if c = 0x09 then [0x5C, 0x74]
      else if c = 0x0A then [0x5C, 0x6E]
      else if c = 0x0C then [0x5C, 0x66]
      else if c = 0x0D then [0x5C, 0x72]
      else if c = 0x22 then [0x5C, 0x22]
      else if c = 0x5C then [0x5C, 0x5C]
      else if unat c < 0x20 \<or> is_lead c \<or> is_trail c then UnicodeEscape c
      else [c])"

fun quote_units :: "jsstring \<Rightarrow> jsstring" where
  "quote_units [] = []"
| "quote_units [c] = escape_unit c"
| "quote_units (c # d # cs) =
     (if is_lead c \<and> is_trail d then c # d # quote_units cs
      else escape_unit c @ quote_units (d # cs))"

definition QuoteJSONString :: "jsstring \<Rightarrow> jsstring" where
  "QuoteJSONString s = 0x22 # quote_units s @ [0x22]"

text \<open>
  \<open>Number::toString\<close> on an integral value: the decimal digits, after a minus sign for
  a negative one. (The values of \<open>Date.now()\<close> lie far below \<open>10^21\<close>, where the
  exponent notation starts.)
\<close>

fun digits :: "nat \<Rightarrow> jsstring" where
  "digits n =
     (if n < 10 then [word_of_nat (48 + n)]
      else digits (n div 10) @ [word_of_nat (48 + n mod 10)])"

declare digits.simps [simp del]

definition NumberToString :: "int \<Rightarrow> jsstring" where
  "NumberToString i = (if i < 0 then 0x2D # digits (nat (- i)) else digits (nat i))"

definition string_of_Status :: "Status \<Rightarrow> jsstring" where
  "string_of_Status st = (case st of status_pending \<Rightarrow> js ''pending'' | status_done \<Rightarrow> js ''done'')"

definition member_key :: "string \<Rightarrow> jsstring" where
  "member_key k = QuoteJSONString (js k) @ js '':''"

text \<open>
  \<open>SerializeJSONObject\<close> on an appointment: the keys in the order of their creation,
  which for \<^verbatim>\<open>{...app, id, status, createdAt}\<close> is the order of the form's fields
  followed by the three added ones; no white space, since no indent is given.
\<close>

definition stringify_appointment :: "Appointment \<Rightarrow> jsstring" where
  "stringify_appointment a =
     js ''{'' @ member_key ''patientName'' @ QuoteJSONString (patientName a) @
     js '','' @ member_key ''email'' @ QuoteJSONString (email a) @
     js '','' @ member_key ''phone'' @ QuoteJSONString (phone a) @
     js '','' @ member_key ''service'' @ QuoteJSONString (service a) @
     js '','' @ member_key ''date'' @ QuoteJSONString (date a) @
     js '','' @ member_key ''id'' @ QuoteJSONString (id_app a) @
     js '','' @ member_key ''status'' @ QuoteJSONString (string_of_Status (status a)) @
     js '','' @ member_key ''createdAt'' @ NumberToString (createdAt a) @
     js ''}''"

fun join_elements :: "jsstring list \<Rightarrow> jsstring" where
  "join_elements [] = []"
| "join_elements [x] = x"
| "join_elements (x # y # ys) = x @ js '','' @ join_elements (y # ys)"

definition JSON_stringify :: "Appointment list \<Rightarrow> jsstring" where
  "JSON_stringify apps = js ''['' @ join_elements (map stringify_appointment apps) @ js '']''"

section \<open>\<open>JSON.parse\<close> on a snapshot\<close>

text \<open>
  The reader of the texts that \<open>JSON_stringify\<close> writes: an array of objects with the
  eight members in the order above and no white space. String literals are read with the
  whole escape syntax of JSON, numbers as integers in decimal. The result \<open>None\<close> stands
  for every other text: one that \<open>JSON.parse\<close> rejects with a \<open>SyntaxError\<close>, one whose
  value is not of the type \<^verbatim>\<open>Appointment[]\<close>, and also one in a layout that this program
  never writes (white space, another order of the members, a fraction or an exponent).
  Nothing is stated here about what the program does on those.
\<close>

definition unhexdigit :: "16 word \<Rightarrow> nat option" where
  "unhexdigit h =
     (let v = unat h in
      if 48 \<le> v \<and> v \<le> 57 then Some (v - 48)
      else if 97 \<le> v \<and> v \<le> 102 then Some (v - 87)
      else if 65 \<le> v \<and> v \<le> 70 then Some (v - 55)
      else None)"

definition unhex4 :: "16 word \<Rightarrow> 16 word \<Rightarrow> 16 word \<Rightarrow> 16 word \<Rightarrow> 16 word option" where
  "unhex4 h1 h2 h3 h4 =
     (case (unhexdigit h1, unhexdigit h2, unhexdigit h3, unhexdigit h4) of
        (Some a, Some b, Some c, Some d) \<Rightarrow> Some (word_of_nat (((a * 16 + b) * 16 + c) * 16 + d))
      | _ \<Rightarrow> None)"

definition unescape_unit :: "16 word \<Rightarrow> 16 word option" where
  "unescape_unit e =
     (if e = 0x22 then Some 0x22
      else if e = 0x5C then Some 0x5C
      else if e = 0x2F then Some 0x2F
      else if e = 0x62 then Some 0x08
      else if e = 0x66 then Some 0x0C
      else if e = 0x6E then Some 0x0A
      else if e = 0x72 then Some 0x0D
      else if e = 0x74 then Some 0x09
      else None)"

text \<open>The characters of a string literal after its opening quote, up to the closing one.\<close>

fun unquote_units :: "jsstring \<Rightarrow> (jsstring \<times> jsstring) option" where
  "unquote_units [] = None"
| "unquote_units (c # cs) =
     (if c = 0x22 then Some ([], cs)
      else if c = 0x5C then
        (case cs of
           [] \<Rightarrow> None
         | e # es \<Rightarrow>
             (if e = 0x75 then
                (case es of
                   h1 # h2 # h3 # h4 # r \<Rightarrow>
                     (case unhex4 h1 h2 h3 h4 of
                        None \<Rightarrow> None
                      | Some u \<Rightarrow> map_option (apfst ((#) u)) (unquote_units r))
                 | _ \<Rightarrow> None)
              else
                (case unescape_unit e of
                   None \<Rightarrow> None
                 | Some u \<Rightarrow> map_option (apfst ((#) u)) (unquote_units es))))
      else if unat c < 0x20 then None
      else map_option (apfst ((#) c)) (unquote_units cs))"

definition parse_string :: "jsstring \<Rightarrow> (jsstring \<times> jsstring) option" where
  "parse_string s = (case s of [] \<Rightarrow> None | c # cs \<Rightarrow> if c = 0x22 then unquote_units cs else None)"

definition is_digit :: "16 word \<Rightarrow> bool" where
  "is_digit c \<longleftrightarrow> 48 \<le> unat c \<and> unat c \<le> 57"

fun parse_digits :: "nat \<Rightarrow> jsstring \<Rightarrow> nat \<times> jsstring" where
  "parse_digits acc [] = (acc, [])"
| "parse_digits acc (c # cs) =
     (if is_digit c then parse_digits (acc * 10 + (unat c - 48)) cs else (acc, c # cs))"

definition parse_nat :: "jsstring \<Rightarrow> (nat \<times> jsstring) option" where
  "parse_nat s =
     (case s of
        [] \<Rightarrow> None
      | c # cs \<Rightarrow>
          if c = 0x30 then Some (0, cs)
          else if is_digit c then Some (parse_digits 0 s)
          else None)"

definition parse_number :: "jsstring \<Rightarrow> (int \<times> jsstring) option" where
  "parse_number s =
     (case s of
        [] \<Rightarrow> None
      | c # cs \<Rightarrow>
          if c = 0x2D then map_option (apfst (\<lambda>n. - int n)) (parse_nat cs)
          else map_option (apfst int) (parse_nat s))"

definition expect :: "jsstring \<Rightarrow> jsstring \<Rightarrow> jsstring option" where
  "expect p s = (if take (length p) s = p then Some (drop (length p) s) else None)"

definition Status_of_string :: "jsstring \<Rightarrow> Status option" where
  "Status_of_string s =
     (if s = js ''pending'' then Some status_pending
      else if s = js ''done'' then Some status_done
      else None)"

definition parse_appointment :: "jsstring \<Rightarrow> (Appointment \<times> jsstring) option" where
  "parse_appointment s0 = do {
     s1 \<leftarrow> expect (js ''{'' @ member_key ''patientName'') s0;
     (v_patientName, s2) \<leftarrow> parse_string s1;
     s3 \<leftarrow> expect (js '','' @ member_key ''email'') s2;
     (v_email, s4) \<leftarrow> parse_string s3;
     s5 \<leftarrow> expect (js '','' @ member_key ''phone'') s4;
     (v_phone, s6) \<leftarrow> parse_string s5;
     s7 \<leftarrow> expect (js '','' @ member_key ''service'') s6;
     (v_service, s8) \<leftarrow> parse_string s7;
     s9 \<leftarrow> expect (js '','' @ member_key ''date'') s8;
     (v_date, s10) \<leftarrow> parse_string s9;
     s11 \<leftarrow> expect (js '','' @ member_key ''id'') s10;
     (v_id, s12) \<leftarrow> parse_string s11;
     s13 \<leftarrow> expect (js '','' @ member_key ''status'') s12;
     (v_status_text, s14) \<leftarrow> parse_string s13;
     v_status \<leftarrow> Status_of_string v_status_text;
     s15 \<leftarrow> expect (js '','' @ member_key ''createdAt'') s14;
     (v_createdAt, s16) \<leftarrow> parse_number s15;
     s17 \<leftarrow> expect (js ''}'') s16;
     Some (\<lparr>patientName = v_patientName, email = v_email, phone = v_phone,
            service = v_service, date = v_date, id_app = v_id, status = v_status,
            createdAt = v_createdAt\<rparr>, s17)
   }"

text \<open>
  The elements of a non-empty array, up to the closing bracket. Every appointment read
  takes at least its opening brace from the text, which is why the loop ends.
\<close>

function parse_elements :: "jsstring \<Rightarrow> (Appointment list \<times> jsstring) option" where
  "parse_elements s =
     (case parse_appointment s of
        None \<Rightarrow> None
      | Some (a, r) \<Rightarrow>
          (case r of
             [] \<Rightarrow> None
           | c # r' \<Rightarrow>
               if c = 0x2C then map_option (apfst ((#) a)) (parse_elements r')
               else if c = 0x5D then Some ([a], r')
               else None))"
  by pat_completeness auto
termination
proof (relation "measure length")
  show "wf (measure length)" by simp
next
  fix s :: jsstring and x2 a r c r'
  assume p: "parse_appointment s = Some x2" and x2: "(a, r) = x2" and r: "r = c # r'"
  have ex: "length t + length p = length u" if "expect p u = Some t" for p u t
  proof -
    from that have "take (length p) u = p" and "t = drop (length p) u"
      by (auto simp: expect_def split: if_splits)
    moreover from this(1) have "length p \<le> length u"
      by (metis length_take min.cobounded1)
    ultimately show ?thesis by simp
  qed
  have uq: "length t < length u" if "unquote_units u = Some (v, t)" for u v t
    using that
  proof (induction u arbitrary: v t rule: length_induct)
    case (1 u)
    then have IH: "\<And>w v' t'. length w < length u \<Longrightarrow> unquote_units w = Some (v', t')
        \<Longrightarrow> length t' < length w"
      by blast
    show ?case
    proof (cases u)
      case Nil
      with 1(2) show ?thesis by simp
    next
      case (Cons c cs)
      with 1(2) show ?thesis
        apply (simp split: if_splits list.splits option.splits)
          apply (auto dest!: IH [rotated] simp: Cons)
        done
    qed
  qed
  have ps: "length t \<le> length u" if "parse_string u = Some (v, t)" for u v t
    using that by (auto simp: parse_string_def split: list.splits if_splits dest: uq)
  have pd: "length t \<le> length u" if "parse_digits acc u = (n, t)" for acc u n t
    using that by (induction acc u rule: parse_digits.induct) (auto split: if_splits)
  have pn: "length t \<le> length u" if "parse_number u = Some (n, t)" for u n t
    using that
    by (auto simp: parse_number_def parse_nat_def split: list.splits if_splits dest: pd)
  from p x2 [symmetric] have "length r < length s"
    unfolding parse_appointment_def
    by (auto split: Option.bind_splits dest!: ex ps pn simp: js_def)
  with r show "(r', s) \<in> measure length" by simp
qed

definition JSON_parse :: "jsstring \<Rightarrow> Appointment list option" where
  "JSON_parse text =
     (case expect (js ''['') text of
        None \<Rightarrow> None
      | Some s \<Rightarrow>
          (case s of
             [] \<Rightarrow> None
           | c # r \<Rightarrow>
               if c = 0x5D then (if r = [] then Some [] else None)
               else (case parse_elements s of
                       Some (apps, []) \<Rightarrow> Some apps
                     | _ \<Rightarrow> None)))"

section \<open>The component \<open>App\<close>: the appointment store\<close>

text \<open>The first render: the initial values of the \<open>useState\<close> cells over a given storage.\<close>

definition App_initial :: "(jsstring \<rightharpoonup> jsstring) \<Rightarrow> App_state" where
  "App_initial store =
     \<lparr>authMode = mode_none, showAuthModal = True, appointments = [], isMenuOpen = False,
      localStorage = store\<rparr>"

text \<open>
  The effect that runs once after the first render. \<open>getItem\<close> yields \<open>null\<close> for a
  missing key, and \<^verbatim>\<open>if (saved)\<close> is false for \<open>null\<close> and for the empty string. A text
  that \<open>JSON_parse\<close> does not read is outside this model; \<open>load_effect\<close> marks it with
  \<open>SnapshotNotRead\<close> (on a malformed text \<open>JSON.parse\<close> throws and the effect ends there).
\<close>

datatype load_error = SnapshotNotRead

definition load_effect :: "App_state \<Rightarrow> load_error + App_state" where
  "load_effect s =
     (case localStorage s (js ''ent_appointments'') of
        None \<Rightarrow> Inr s
      | Some saved \<Rightarrow>
          if saved = [] then Inr s
          else (case JSON_parse saved of
                  None \<Rightarrow> Inl SnapshotNotRead
                | Some apps \<Rightarrow> Inr (s\<lparr>appointments := apps\<rparr>)))"

text \<open>
  \<open>localStorage.setItem(key, value)\<close>. Whether the browser takes the write (the quota of the
  origin is not exceeded, the storage is not disabled) is a reading of the environment,
  the argument \<open>fits\<close>. A write that is not taken throws \<open>QuotaExceededError\<close> and leaves
  the storage as it was.
\<close>

datatype js_error = QuotaExceededError

definition setItem ::
  "bool \<Rightarrow> jsstring \<Rightarrow> jsstring \<Rightarrow> (jsstring \<rightharpoonup> jsstring) \<Rightarrow> js_error + (jsstring \<rightharpoonup> jsstring)" where
  "setItem fits k v store = (if fits then Inr (store(k \<mapsto> v)) else Inl QuotaExceededError)"

text \<open>
  \<open>saveAppointments\<close>: first \<open>setAppointments\<close>, then \<open>setItem\<close>, with nothing that catches.
  The result is the exception that left the function, if one did, and the state left
  behind: the cell holds the new collection in both cases, the storage only when the
  write was taken.
\<close>

definition saveAppointments ::
  "Appointment list \<Rightarrow> bool \<Rightarrow> App_state \<Rightarrow> js_error option \<times> App_state" where
  "saveAppointments newApps fits s =
     (let s1 = s\<lparr>appointments := newApps\<rparr> in
      case setItem fits (js ''ent_appointments'') (JSON_stringify newApps) (localStorage s1) of
        Inl e \<Rightarrow> (Some e, s1)
      | Inr store \<Rightarrow> (None, s1\<lparr>localStorage := store\<rparr>))"

definition handleLogout :: "App_state \<Rightarrow> App_state" where
  "handleLogout s = s\<lparr>authMode := mode_none, showAuthModal := True\<rparr>"

text \<open>\<open>String.prototype.substr(start, length)\<close> for a start that is not negative.\<close>

definition substr :: "nat \<Rightarrow> nat \<Rightarrow> jsstring \<Rightarrow> jsstring" where
  "substr start len s = take len (drop start s)"

text \<open>
  \<open>addAppointment\<close>. Its readings of the environment are arguments: \<open>random36\<close> is the
  text \<^verbatim>\<open>Math.random().toString(36)\<close> (\<open>0\<close> for the draw zero, otherwise \<open>0.\<close> followed by
  digits in base 36), \<open>now\<close> is \<open>Date.now()\<close>, and \<open>fits\<close> is whether the storage takes the
  write. The function returns no value: its result here is the exception that left it,
  if any, and the state it leaves.
\<close>

definition addAppointment ::
  "AppointmentDraft \<Rightarrow> jsstring \<Rightarrow> int \<Rightarrow> bool \<Rightarrow> App_state \<Rightarrow> js_error option \<times> App_state" where
  "addAppointment app random36 now fits s =
     (let newApp = \<lparr>patientName = patientName app, email = email app, phone = phone app,
                     service = service app, date = date app,
                     id_app = substr 2 9 random36, status = status_pending, createdAt = now\<rparr>
      in saveAppointments (appointments s @ [newApp]) fits s)"

text \<open>\<open>markDone\<close>, which also returns no value.\<close>

definition markDone :: "jsstring \<Rightarrow> bool \<Rightarrow> App_state \<Rightarrow> js_error option \<times> App_state" where
  "markDone i fits s =
     (let updated = filter (\<lambda>app. id_app app \<noteq> i) (appointments s)
      in saveAppointments updated fits s)"

section \<open>The component \<open>AuthModal\<close>: the session gate\<close>

text \<open>The callback \<open>onAuth\<close> that \<open>App\<close> hands to the modal.\<close>

definition onAuth :: "AuthMode \<Rightarrow> App_state \<Rightarrow> App_state" where
  "onAuth mode s = s\<lparr>authMode := mode, showAuthModal := False\<rparr>"

text \<open>
  \<open>handleSubmit\<close> of \<open>AuthModal\<close>, on the state of the modal and of \<open>App\<close>. A string is
  truthy when it is not empty.
\<close>

definition handleSubmit :: "AuthModal_state \<Rightarrow> App_state \<Rightarrow> AuthModal_state \<times> App_state" where
  "handleSubmit m s =
     (let m1 = m\<lparr>error := []\<rparr> in
      if email_auth m = js ''admin'' \<and> password m = js ''1234'' then (m1, onAuth mode_doctor s)
      else if email_auth m \<noteq> [] \<and> 4 \<le> length (password m) then (m1, onAuth mode_patient s)
      else (m1\<lparr>error := js ''Please enter valid credentials (min 4 chars password)''\<rparr>, s))"

section \<open>Sequences of store operations\<close>

text \<open>
  A run of the store: bookings and completions, one event after the other, each on the
  state the previous one left. An exception that leaves a handler ends that event only;
  the page goes on in the state the handler left.
\<close>

datatype store_op = Add AppointmentDraft jsstring int bool | Remove jsstring bool

fun step :: "store_op \<Rightarrow> App_state \<Rightarrow> App_state" where
  "step (Add app random36 now fits) s = snd (addAppointment app random36 now fits s)"
| "step (Remove i fits) s = snd (markDone i fits s)"

fun run :: "store_op list \<Rightarrow> App_state \<Rightarrow> App_state" where
  "run [] s = s"
| "run (op # ops) s = run ops (step op s)"

text \<open>
  \<open>fresh_draws ops s\<close>: along the run of \<open>ops\<close> from \<open>s\<close>, every booking draws an id that
  no appointment of the collection carries at that moment.
\<close>

fun fresh_draws :: "store_op list \<Rightarrow> App_state \<Rightarrow> bool" where
  "fresh_draws [] s = True"
| "fresh_draws (Add app random36 now fits # ops) s =
     (substr 2 9 random36 \<notin> set (map id_app (appointments s)) \<and>
      fresh_draws ops (step (Add app random36 now fits) s))"
| "fresh_draws (Remove i fits # ops) s = fresh_draws ops (step (Remove i fits) s)"

section \<open>The session gate\<close>

text \<open>
  Claim C1. Whenever the identifier is exactly \<open>admin\<close> and the secret exactly \<open>1234\<close>,
  the submission succeeds with the staff role: \<open>onAuth\<close> is called with \<open>doctor\<close>, so the
  mode of the session becomes \<open>doctor\<close>, and no error message is left.
\<close>

theorem handleSubmit_admin_staff:
  assumes "email_auth m = js ''admin''" and "password m = js ''1234''"
  shows "authMode (snd (handleSubmit m s)) = mode_doctor
       \<and> snd (handleSubmit m s) = onAuth mode_doctor s
       \<and> error (fst (handleSubmit m s)) = []"
  using assms by (auto simp add: handleSubmit_def onAuth_def Let_def)

theorem handleSubmit_admin_staff_witness:
  "authMode (snd (handleSubmit
      \<lparr>isLogin = True, email_auth = js ''admin'', password = js ''1234'', error = []\<rparr>
      (App_initial Map.empty))) = mode_doctor"
proof -
  let ?m = "\<lparr>isLogin = True, email_auth = js ''admin'', password = js ''1234'', error = []\<rparr>"
  have e: "email_auth ?m = js ''admin''" and p: "password ?m = js ''1234''" by simp_all
  from handleSubmit_admin_staff [OF e p] show ?thesis by blast
qed

text \<open>
  Claim C2. Whenever the identifier is not empty and the secret has at least four code
  units, and the pair is not the admin pair, the submission succeeds with the patient
  role.
\<close>

theorem handleSubmit_patient_role:
  assumes "email_auth m \<noteq> []" and "4 \<le> length (password m)"
    and "\<not> (email_auth m = js ''admin'' \<and> password m = js ''1234'')"
  shows "authMode (snd (handleSubmit m s)) = mode_patient
       \<and> snd (handleSubmit m s) = onAuth mode_patient s
       \<and> error (fst (handleSubmit m s)) = []"
  using assms by (auto simp add: handleSubmit_def onAuth_def Let_def)

theorem handleSubmit_patient_role_witness:
  "authMode (snd (handleSubmit
      \<lparr>isLogin = True, email_auth = js ''admin'', password = js ''12345'', error = []\<rparr>
      (App_initial Map.empty))) = mode_patient"
proof -
  let ?m = "\<lparr>isLogin = True, email_auth = js ''admin'', password = js ''12345'', error = []\<rparr>"
  have e: "email_auth ?m \<noteq> []" and p: "4 \<le> length (password ?m)"
    and n: "\<not> (email_auth ?m = js ''admin'' \<and> password ?m = js ''1234'')"
    by (simp_all add: js_def)
  from handleSubmit_patient_role [OF e p n] show ?thesis by blast
qed

text \<open>
  Claim C3. For every other pair the submission fails: \<open>onAuth\<close> is not called, the state
  of \<open>App\<close> (and with it the mode of the session and the open modal) is what it was, and
  the modal shows the message for invalid credentials.
\<close>

theorem handleSubmit_invalid_credentials:
  assumes "\<not> (email_auth m = js ''admin'' \<and> password m = js ''1234'')"
    and "\<not> (email_auth m \<noteq> [] \<and> 4 \<le> length (password m))"
  shows "snd (handleSubmit m s) = s
       \<and> authMode (snd (handleSubmit m s)) = authMode s
       \<and> showAuthModal (snd (handleSubmit m s)) = showAuthModal s
       \<and> error (fst (handleSubmit m s)) =
           js ''Please enter valid credentials (min 4 chars password)''
       \<and> error (fst (handleSubmit m s)) \<noteq> []"
  using assms by (auto simp add: handleSubmit_def Let_def js_def)

theorem handleSubmit_invalid_credentials_witness:
  "snd (handleSubmit
      \<lparr>isLogin = True, email_auth = js ''admin'', password = js ''123'', error = []\<rparr>
      (App_initial Map.empty)) = App_initial Map.empty
   \<and> error (fst (handleSubmit
      \<lparr>isLogin = True, email_auth = js ''admin'', password = js ''123'', error = []\<rparr>
      (App_initial Map.empty))) \<noteq> []"
proof -
  let ?m = "\<lparr>isLogin = True, email_auth = js ''admin'', password = js ''123'', error = []\<rparr>"
  have n: "\<not> (email_auth ?m = js ''admin'' \<and> password ?m = js ''1234'')"
    and v: "\<not> (email_auth ?m \<noteq> [] \<and> 4 \<le> length (password ?m))"
    by (simp_all add: js_def)
  from handleSubmit_invalid_credentials [OF n v] show ?thesis by blast
qed

section \<open>Reading back what \<open>JSON_stringify\<close> wrote\<close>

subsection \<open>String literals\<close>

lemma unat_small: "k < 65536 \<Longrightarrow> unat (word_of_nat k :: 16 word) = k"
  by (simp add: unat_of_nat)

lemma unhexdigit_hexdigit: "n < 16 \<Longrightarrow> unhexdigit (hexdigit n) = Some n"
  by (simp add: unhexdigit_def hexdigit_def unat_small Let_def del: of_nat_add)

lemma unat_16_bound: "unat (c :: 16 word) < 65536"
  using unsigned_less [of c] by simp

lemma nibbles:
  fixes n :: nat
  assumes "n < 65536"
  shows "((n div 4096 mod 16 * 16 + n div 256 mod 16) * 16 + n div 16 mod 16) * 16 + n mod 16 = n"
proof -
  have d2: "n div 256 = n div 16 div 16" and d3: "n div 4096 = n div 16 div 16 div 16"
    by (simp_all add: div_mult2_eq [symmetric])
  from assms have top: "n div 16 div 16 div 16 < 16"
    by (simp add: div_mult2_eq [symmetric])
  show ?thesis
    unfolding d2 d3 using top by (simp add: div_mult_mod_eq)
qed


lemma unhex4_UnicodeEscape:
  "unhex4 (hexdigit (unat c div 4096 mod 16)) (hexdigit (unat c div 256 mod 16))
      (hexdigit (unat c div 16 mod 16)) (hexdigit (unat c mod 16)) = Some c"
proof -
  let ?n = "unat c"
  have "(word_of_nat (((?n div 4096 mod 16 * 16 + ?n div 256 mod 16) * 16 + ?n div 16 mod 16) * 16
          + ?n mod 16) :: 16 word) = word_of_nat ?n"
    by (simp only: nibbles [OF unat_16_bound])
  then show ?thesis
    by (simp add: unhex4_def unhexdigit_hexdigit del: of_nat_add of_nat_mult)
qed

lemma unquote_UnicodeEscape:
  "unquote_units (UnicodeEscape c @ rest) = map_option (apfst ((#) c)) (unquote_units rest)"
  by (simp add: UnicodeEscape_def unhex4_UnicodeEscape)

lemma unquote_literal:
  "c \<noteq> 0x22 \<Longrightarrow> c \<noteq> 0x5C \<Longrightarrow> \<not> unat c < 0x20 \<Longrightarrow>
   unquote_units (c # rest) = map_option (apfst ((#) c)) (unquote_units rest)"
  by simp

lemma unquote_escape_unit:
  "unquote_units (escape_unit c @ rest) = map_option (apfst ((#) c)) (unquote_units rest)"
  unfolding escape_unit_def
  by (simp add: unquote_UnicodeEscape unescape_unit_def)

lemma lead_literal: "is_lead c \<Longrightarrow> c \<noteq> 0x22 \<and> c \<noteq> 0x5C \<and> \<not> unat c < 0x20"
  by (auto simp: is_lead_def)

lemma trail_literal: "is_trail c \<Longrightarrow> c \<noteq> 0x22 \<and> c \<noteq> 0x5C \<and> \<not> unat c < 0x20"
  by (auto simp: is_trail_def)

lemma unquote_quote_units:
  "unquote_units (quote_units s @ 0x22 # rest) = Some (s, rest)"
proof (induction s rule: quote_units.induct)
  case 1
  show ?case by simp
next
  case (2 c)
  show ?case by (simp add: unquote_escape_unit)
next
  case (3 c d cs)
  show ?case
  proof (cases "is_lead c \<and> is_trail d")
    case True
    with 3 lead_literal [of c] trail_literal [of d] show ?thesis
      by (simp add: unquote_literal)
  next
    case False
    then have q: "quote_units (c # d # cs) = escape_unit c @ quote_units (d # cs)"
      by auto
    from False 3(2) have "unquote_units (quote_units (d # cs) @ 0x22 # rest) = Some (d # cs, rest)"
      by blast
    then show ?thesis
      unfolding q by (simp add: unquote_escape_unit del: unquote_units.simps quote_units.simps)
  qed
qed

lemma parse_string_Quote: "parse_string (QuoteJSONString s @ rest) = Some (s, rest)"
  by (simp add: parse_string_def QuoteJSONString_def unquote_quote_units)

subsection \<open>Numbers\<close>

lemma is_digit_digit: "d < 10 \<Longrightarrow> is_digit (word_of_nat (48 + d)) \<and> unat (word_of_nat (48 + d) :: 16 word) - 48 = d"
  by (simp add: is_digit_def unat_small del: of_nat_add)

lemma parse_digits_digits:
  "parse_digits acc (digits n @ rest) = parse_digits (acc * 10 ^ length (digits n) + n) rest"
proof (induction n arbitrary: acc rest rule: digits.induct)
  case (1 n)
  show ?case
  proof (cases "n < 10")
    case True
    then have d: "digits n = [word_of_nat (48 + n)]" by (simp add: digits.simps [of n])
    show ?thesis unfolding d using is_digit_digit [OF True] by simp
  next
    case False
    then have d: "digits n = digits (n div 10) @ [word_of_nat (48 + n mod 10)]"
      by (simp add: digits.simps [of n])
    have m: "n mod 10 < 10" by simp
    have "parse_digits acc (digits n @ rest)
        = parse_digits acc (digits (n div 10) @ (word_of_nat (48 + n mod 10) # rest))"
      unfolding d by simp
    also have "\<dots> = parse_digits (acc * 10 ^ length (digits (n div 10)) + n div 10)
                      (word_of_nat (48 + n mod 10) # rest)"
      using 1 [OF False] by simp
    also have "\<dots> = parse_digits ((acc * 10 ^ length (digits (n div 10)) + n div 10) * 10 + n mod 10) rest"
      using is_digit_digit [OF m] by simp
    also have "(acc * 10 ^ length (digits (n div 10)) + n div 10) * 10 + n mod 10
        = acc * 10 ^ length (digits n) + n"
      unfolding d by (simp add: algebra_simps)
    finally show ?thesis .
  qed
qed

lemma digits_head:
  "0 < n \<Longrightarrow> \<exists>c cs. digits n = c # cs \<and> is_digit c \<and> c \<noteq> 0x30"
proof (induction n rule: digits.induct)
  case (1 n)
  show ?case
  proof (cases "n < 10")
    case True
    then have d: "digits n = [word_of_nat (48 + n)]" by (simp add: digits.simps [of n])
    have "(word_of_nat (48 + n) :: 16 word) \<noteq> 0x30"
    proof
      assume "(word_of_nat (48 + n) :: 16 word) = 0x30"
      then have "unat (word_of_nat (48 + n) :: 16 word) = unat (0x30 :: 16 word)" by simp
      with True 1(2) show False by (simp add: unat_small del: of_nat_add)
    qed
    with d is_digit_digit [OF True] show ?thesis by simp
  next
    case False
    then have d: "digits n = digits (n div 10) @ [word_of_nat (48 + n mod 10)]"
      by (simp add: digits.simps [of n])
    from False have "0 < n div 10" by simp
    from 1(1) [OF False this] obtain c cs where "digits (n div 10) = c # cs" "is_digit c" "c \<noteq> 0x30"
      by blast
    then show ?thesis unfolding d by simp
  qed
qed

lemma digits_zero: "digits 0 = [0x30]"
  by (simp add: digits.simps [of 0])

lemma parse_nat_digits:
  assumes "rest = [] \<or> \<not> is_digit (hd rest)"
  shows "parse_nat (digits n @ rest) = Some (n, rest)"
proof (cases "n = 0")
  case True
  then show ?thesis by (simp add: parse_nat_def digits_zero)
next
  case False
  then obtain c cs where d: "digits n = c # cs" and c: "is_digit c" "c \<noteq> 0x30"
    using digits_head [of n] by auto
  have stop: "parse_digits k rest = (k, rest)" for k
    using assms by (cases rest) auto
  have "parse_nat (digits n @ rest) = Some (parse_digits 0 (digits n @ rest))"
    using c by (simp add: parse_nat_def d)
  also have "\<dots> = Some (n, rest)"
    by (simp add: parse_digits_digits stop)
  finally show ?thesis .
qed

lemma digit_not_minus: "is_digit c \<Longrightarrow> c \<noteq> 0x2D"
  by (auto simp: is_digit_def)

lemma parse_number_NumberToString:
  assumes "rest = [] \<or> \<not> is_digit (hd rest)"
  shows "parse_number (NumberToString i @ rest) = Some (i, rest)"
proof (cases "i < 0")
  case True
  then show ?thesis
    by (simp add: NumberToString_def parse_number_def parse_nat_digits [OF assms])
next
  case False
  obtain c cs where d: "digits (nat i) = c # cs" and c: "is_digit c"
  proof (cases "nat i = 0")
    case True
    then show ?thesis using that [of "0x30" "[]"] by (simp add: is_digit_def digits_zero)
  next
    case False
    then show ?thesis using digits_head [of "nat i"] that by auto
  qed
  have "parse_number (digits (nat i) @ rest) = map_option (apfst int) (parse_nat (digits (nat i) @ rest))"
    using digit_not_minus [OF c] by (simp add: parse_number_def d)
  with False show ?thesis
    by (simp add: NumberToString_def parse_nat_digits [OF assms])
qed

lemma expect_append: "expect p (p @ r) = Some r"
  by (simp add: expect_def)

subsection \<open>Appointments and arrays of them\<close>

lemma Status_roundtrip: "Status_of_string (string_of_Status st) = Some st"
  by (cases st) (simp_all add: Status_of_string_def string_of_Status_def js_def)

lemma brace_not_digit: "\<not> is_digit (hd (js ''}'' @ rest))"
  by (simp add: js_def is_digit_def)

lemma parse_appointment_stringify:
  "parse_appointment (stringify_appointment a @ rest) = Some (a, rest)"
proof -
  have num: "parse_number (NumberToString (createdAt a) @ js ''}'' @ rest)
      = Some (createdAt a, js ''}'' @ rest)"
    by (rule parse_number_NumberToString) (simp add: brace_not_digit)
  show ?thesis
    unfolding parse_appointment_def stringify_appointment_def append_assoc
    by (simp only: expect_append parse_string_Quote num Status_roundtrip
          Option.bind.simps prod.case append_assoc [symmetric, of "js '',''"] append_assoc [symmetric, of "js ''{''"])
       simp
qed

lemma parse_elements_join:
  "apps \<noteq> [] \<Longrightarrow>
   parse_elements (join_elements (map stringify_appointment apps) @ 0x5D # rest) = Some (apps, rest)"
proof (induction apps rule: induct_list012)
  case 1
  then show ?case by simp
next
  case (2 a)
  show ?case
    by (subst parse_elements.simps) (simp add: parse_appointment_stringify)
next
  case (3 a b bs)
  have "parse_elements (join_elements (map stringify_appointment (a # b # bs)) @ 0x5D # rest)
      = parse_elements (stringify_appointment a @
          (0x2C # join_elements (map stringify_appointment (b # bs)) @ 0x5D # rest))"
    by (simp add: js_def)
  also have "\<dots> = map_option (apfst ((#) a))
      (parse_elements (join_elements (map stringify_appointment (b # bs)) @ 0x5D # rest))"
    by (subst parse_elements.simps) (simp add: parse_appointment_stringify)
  also have "\<dots> = Some (a # b # bs, rest)"
    using 3(2) by simp
  finally show ?case .
qed

lemma stringify_appointment_head: "\<exists>t. stringify_appointment a = 0x7B # t"
  by (simp add: stringify_appointment_def js_def)

lemma JSON_parse_stringify: "JSON_parse (JSON_stringify apps) = Some apps"
proof (cases apps)
  case Nil
  then show ?thesis
    by (simp add: JSON_parse_def JSON_stringify_def expect_def js_def)
next
  case (Cons a as)
  obtain t where t: "stringify_appointment a = 0x7B # t"
    using stringify_appointment_head by blast
  have "\<exists>u. join_elements (map stringify_appointment (a # as)) = 0x7B # u"
    by (cases as) (simp_all add: t)
  then obtain u where u: "join_elements (map stringify_appointment apps) = 0x7B # u"
    using Cons by blast
  have e: "expect (js ''['') (JSON_stringify apps)
      = Some (join_elements (map stringify_appointment apps) @ 0x5D # [])"
    unfolding JSON_stringify_def by (simp add: expect_append) (simp add: js_def)
  have p: "parse_elements (join_elements (map stringify_appointment apps) @ 0x5D # [])
      = Some (apps, [])"
    by (rule parse_elements_join) (simp add: Cons)
  show ?thesis
    unfolding JSON_parse_def e using p by (simp add: u)
qed

section \<open>The appointment store\<close>

lemma appointments_saveAppointments: "appointments (snd (saveAppointments apps fits s)) = apps"
  by (simp add: saveAppointments_def setItem_def Let_def)

lemma storage_saveAppointments:
  "localStorage (snd (saveAppointments apps fits s)) =
     (if fits then (localStorage s)(js ''ent_appointments'' \<mapsto> JSON_stringify apps)
      else localStorage s)"
  by (simp add: saveAppointments_def setItem_def Let_def)

lemma thrown_saveAppointments:
  "fst (saveAppointments apps fits s) = (if fits then None else Some QuotaExceededError)"
  by (simp add: saveAppointments_def setItem_def Let_def)

lemma appointments_addAppointment:
  "appointments (snd (addAppointment app r t fits s)) =
     appointments s @ [\<lparr>patientName = patientName app, email = email app, phone = phone app,
        service = service app, date = date app, id_app = substr 2 9 r,
        status = status_pending, createdAt = t\<rparr>]"
  by (simp add: addAppointment_def appointments_saveAppointments)

lemma storage_addAppointment:
  "localStorage (snd (addAppointment app r t fits s)) =
     (if fits then (localStorage s)(js ''ent_appointments'' \<mapsto>
                      JSON_stringify (appointments (snd (addAppointment app r t fits s))))
      else localStorage s)"
  by (simp add: addAppointment_def appointments_saveAppointments storage_saveAppointments)

lemma thrown_addAppointment:
  "fst (addAppointment app r t fits s) = (if fits then None else Some QuotaExceededError)"
  by (simp add: addAppointment_def thrown_saveAppointments)

lemma appointments_markDone:
  "appointments (snd (markDone i fits s)) = filter (\<lambda>app. id_app app \<noteq> i) (appointments s)"
  by (simp add: markDone_def appointments_saveAppointments)

lemma storage_markDone:
  "localStorage (snd (markDone i fits s)) =
     (if fits then (localStorage s)(js ''ent_appointments'' \<mapsto>
                      JSON_stringify (appointments (snd (markDone i fits s))))
      else localStorage s)"
  by (simp add: markDone_def appointments_saveAppointments storage_saveAppointments)

lemma thrown_markDone:
  "fst (markDone i fits s) = (if fits then None else Some QuotaExceededError)"
  by (simp add: markDone_def thrown_saveAppointments)

lemma JSON_stringify_inj: "JSON_stringify xs = JSON_stringify ys \<Longrightarrow> xs = ys"
proof -
  assume "JSON_stringify xs = JSON_stringify ys"
  then have "JSON_parse (JSON_stringify xs) = JSON_parse (JSON_stringify ys)" by simp
  then show "xs = ys" by (simp add: JSON_parse_stringify)
qed

subsection \<open>Booking an appointment\<close>

text \<open>
  Claim C4, as the code has it. \<open>addAppointment\<close> builds the record from the draft, gives it
  the id cut from the random draw (the up to nine code units after the first two of
  \<^verbatim>\<open>Math.random().toString(36)\<close>), status \<open>pending\<close> and \<open>createdAt = now\<close>, and appends it
  at the end of the collection. The id is new, and the ids stay unique, whenever the draw
  is not already an id of the collection; nothing in the code makes it so. When the
  storage takes the write, the snapshot is the serialisation of the whole new collection,
  which reads back as that collection, and the function ends normally; when it does not,
  \<open>QuotaExceededError\<close> leaves the function, the collection holds the new record all the
  same and the storage is what it was. The function returns no value: the record is the
  last element of the collection it leaves.
\<close>

theorem addAppointment_appends_and_persists:
  "butlast (appointments (snd (addAppointment app r t fits s))) = appointments s
     \<and> length (appointments (snd (addAppointment app r t fits s))) = Suc (length (appointments s))
     \<and> last (appointments (snd (addAppointment app r t fits s))) =
         \<lparr>patientName = patientName app, email = email app, phone = phone app,
          service = service app, date = date app, id_app = substr 2 9 r,
          status = status_pending, createdAt = t\<rparr>
     \<and> (distinct (map id_app (appointments s)) \<and> substr 2 9 r \<notin> set (map id_app (appointments s))
          \<longrightarrow> distinct (map id_app (appointments (snd (addAppointment app r t fits s)))))
     \<and> (fits \<longrightarrow>
          fst (addAppointment app r t fits s) = None
          \<and> localStorage (snd (addAppointment app r t fits s)) (js ''ent_appointments'')
               = Some (JSON_stringify (appointments (snd (addAppointment app r t fits s))))
          \<and> JSON_parse (JSON_stringify (appointments (snd (addAppointment app r t fits s))))
               = Some (appointments (snd (addAppointment app r t fits s))))
     \<and> (\<not> fits \<longrightarrow>
          fst (addAppointment app r t fits s) = Some QuotaExceededError
          \<and> localStorage (snd (addAppointment app r t fits s)) = localStorage s)"
  by (simp add: appointments_addAppointment storage_addAppointment thrown_addAppointment
        JSON_parse_stringify)

theorem addAppointment_appends_and_persists_witness:
  "distinct (map id_app (appointments (snd
     (addAppointment
        \<lparr>patientName = js ''Jane Doe'', email = js ''jane@x.com'', phone = js ''555'',
         service = js ''Audiology'', date = js ''2026-01-10''\<rparr>
        (js ''0.i'') 1767225600000 True
        ((App_initial Map.empty)\<lparr>appointments :=
           [\<lparr>patientName = js ''John Roe'', email = js ''john@x.com'', phone = js ''556'',
             service = js ''Audiology'', date = js ''2026-01-11'', id_app = js ''k3f'',
             status = status_pending, createdAt = 1767225500000\<rparr>]\<rparr>)))))
   \<and> fst (addAppointment
        \<lparr>patientName = js ''Jane Doe'', email = js ''jane@x.com'', phone = js ''555'',
         service = js ''Audiology'', date = js ''2026-01-10''\<rparr>
        (js ''0.i'') 1767225600000 True
        ((App_initial Map.empty)\<lparr>appointments :=
           [\<lparr>patientName = js ''John Roe'', email = js ''john@x.com'', phone = js ''556'',
             service = js ''Audiology'', date = js ''2026-01-11'', id_app = js ''k3f'',
             status = status_pending, createdAt = 1767225500000\<rparr>]\<rparr>)) = None
   \<and> fst (addAppointment
        \<lparr>patientName = js ''Jane Doe'', email = js ''jane@x.com'', phone = js ''555'',
         service = js ''Audiology'', date = js ''2026-01-10''\<rparr>
        (js ''0.i'') 1767225600000 False
        ((App_initial Map.empty)\<lparr>appointments :=
           [\<lparr>patientName = js ''John Roe'', email = js ''john@x.com'', phone = js ''556'',
             service = js ''Audiology'', date = js ''2026-01-11'', id_app = js ''k3f'',
             status = status_pending, createdAt = 1767225500000\<rparr>]\<rparr>)) = Some QuotaExceededError"
proof -
  let ?s = "(App_initial Map.empty)\<lparr>appointments :=
           [\<lparr>patientName = js ''John Roe'', email = js ''john@x.com'', phone = js ''556'',
             service = js ''Audiology'', date = js ''2026-01-11'', id_app = js ''k3f'',
             status = status_pending, createdAt = 1767225500000\<rparr>]\<rparr>"
  have h: "distinct (map id_app (appointments ?s))
      \<and> substr 2 9 (js ''0.i'') \<notin> set (map id_app (appointments ?s))"
    by (simp add: substr_def js_def)
  from addAppointment_appends_and_persists [of _ "js ''0.i''" _ True ?s] h
    addAppointment_appends_and_persists [of _ "js ''0.i''" _ False ?s]
  show ?thesis
    by blast
qed

text \<open>
  The same draw twice (\<open>Math.random()\<close> yielding \<open>0.5\<close>, written \<open>0.i\<close> in base 36): the id
  of the second record is the id of the first, so the id that \<open>addAppointment\<close> assigns is
  not always a fresh one. And a booking whose write the storage does not take leaves no
  snapshot at all.
\<close>

theorem addAppointment_id_not_fresh:
  "id_app (last (appointments (snd
     (addAppointment
        \<lparr>patientName = js ''Jane Doe'', email = js ''jane@x.com'', phone = js ''555'',
         service = js ''Audiology'', date = js ''2026-01-10''\<rparr>
        (js ''0.i'') 1767225600001 True
        (snd (addAppointment
           \<lparr>patientName = js ''Jane Doe'', email = js ''jane@x.com'', phone = js ''555'',
            service = js ''Audiology'', date = js ''2026-01-10''\<rparr>
           (js ''0.i'') 1767225600000 True (App_initial Map.empty)))))))
   \<in> set (map id_app (appointments
        (snd (addAppointment
           \<lparr>patientName = js ''Jane Doe'', email = js ''jane@x.com'', phone = js ''555'',
            service = js ''Audiology'', date = js ''2026-01-10''\<rparr>
           (js ''0.i'') 1767225600000 True (App_initial Map.empty)))))
   \<and> localStorage (snd (addAppointment
           \<lparr>patientName = js ''Jane Doe'', email = js ''jane@x.com'', phone = js ''555'',
            service = js ''Audiology'', date = js ''2026-01-10''\<rparr>
           (js ''0.i'') 1767225600000 False (App_initial Map.empty)))
        (js ''ent_appointments'') = None"
  by (simp add: appointments_addAppointment storage_addAppointment App_initial_def)

subsection \<open>Completing an appointment\<close>

lemma filter_split_length:
  "length (filter (\<lambda>a. f a \<noteq> i) xs) + length (filter (\<lambda>a. f a = i) xs) = length xs"
  by (induction xs) auto

lemma distinct_one_match:
  "distinct (map f xs) \<Longrightarrow> i \<in> set (map f xs) \<Longrightarrow> length (filter (\<lambda>a. f a = i) xs) = 1"
proof (induction xs)
  case Nil
  then show ?case by simp
next
  case (Cons x xs)
  show ?case
  proof (cases "f x = i")
    case True
    with Cons.prems have "i \<notin> f ` set xs" by auto
    then have "filter (\<lambda>a. f a = i) xs = []" by (auto simp: filter_empty_conv)
    with True show ?thesis by simp
  next
    case False
    with Cons show ?thesis by auto
  qed
qed

text \<open>
  Claim C5, as the code has it. \<open>markDone i\<close> leaves no record with the id \<open>i\<close> and keeps
  every other record: a collection of size \<open>n\<close> with \<open>k\<close> records of that id becomes one of
  size \<open>n - k\<close>, which is \<open>n - 1\<close> when the ids are unique and \<open>i\<close> is present. For an absent
  id the collection is unchanged. When the storage takes the write, the snapshot is the
  serialisation of the records that remain and reads back as them; when it does not,
  \<open>QuotaExceededError\<close> leaves the function, the collection has shrunk all the same and
  the storage is what it was. The function returns no value, in particular no indication
  of whether a record was removed.
\<close>

theorem markDone_removes_matching:
  "(\<forall>a \<in> set (appointments (snd (markDone i fits s))). id_app a \<noteq> i)
   \<and> set (appointments (snd (markDone i fits s))) = {a \<in> set (appointments s). id_app a \<noteq> i}
   \<and> length (appointments (snd (markDone i fits s)))
        + length (filter (\<lambda>a. id_app a = i) (appointments s)) = length (appointments s)
   \<and> (distinct (map id_app (appointments s)) \<and> i \<in> set (map id_app (appointments s))
        \<longrightarrow> Suc (length (appointments (snd (markDone i fits s)))) = length (appointments s))
   \<and> (i \<notin> set (map id_app (appointments s))
        \<longrightarrow> appointments (snd (markDone i fits s)) = appointments s)
   \<and> (fits \<longrightarrow>
        fst (markDone i fits s) = None
        \<and> localStorage (snd (markDone i fits s)) (js ''ent_appointments'')
             = Some (JSON_stringify (appointments (snd (markDone i fits s))))
        \<and> JSON_parse (JSON_stringify (appointments (snd (markDone i fits s))))
             = Some (appointments (snd (markDone i fits s))))
   \<and> (\<not> fits \<longrightarrow>
        fst (markDone i fits s) = Some QuotaExceededError
        \<and> localStorage (snd (markDone i fits s)) = localStorage s)"
proof -
  let ?s' = "snd (markDone i fits s)"
  have n: "length (appointments ?s')
        + length (filter (\<lambda>a. id_app a = i) (appointments s)) = length (appointments s)"
    unfolding appointments_markDone by (rule filter_split_length)
  have one: "Suc (length (appointments ?s')) = length (appointments s)"
    if "distinct (map id_app (appointments s))" "i \<in> set (map id_app (appointments s))"
    using n distinct_one_match [OF that] by simp
  have absent: "appointments ?s' = appointments s"
    if "i \<notin> set (map id_app (appointments s))"
    unfolding appointments_markDone using that by (auto simp: filter_id_conv)
  have gone: "\<forall>a \<in> set (appointments ?s'). id_app a \<noteq> i"
    by (simp add: appointments_markDone)
  have rest: "set (appointments ?s') = {a \<in> set (appointments s). id_app a \<noteq> i}"
    by (simp add: appointments_markDone)
  have taken: "fst (markDone i fits s) = None
      \<and> localStorage ?s' (js ''ent_appointments'') = Some (JSON_stringify (appointments ?s'))
      \<and> JSON_parse (JSON_stringify (appointments ?s')) = Some (appointments ?s')" if fits
    using that by (simp add: storage_markDone thrown_markDone JSON_parse_stringify)
  have refused: "fst (markDone i fits s) = Some QuotaExceededError
      \<and> localStorage ?s' = localStorage s" if "\<not> fits"
    using that by (simp add: storage_markDone thrown_markDone)
  show ?thesis
    using n one absent gone rest taken refused by blast
qed

theorem markDone_removes_matching_witness:
  "Suc (length (appointments (snd (markDone (js ''i'') True
      ((App_initial Map.empty)\<lparr>appointments :=
         [\<lparr>patientName = js ''Jane Doe'', email = js ''jane@x.com'', phone = js ''555'',
           service = js ''Audiology'', date = js ''2026-01-10'', id_app = js ''i'',
           status = status_pending, createdAt = 1767225600000\<rparr>,
          \<lparr>patientName = js ''John Roe'', email = js ''john@x.com'', phone = js ''556'',
           service = js ''Audiology'', date = js ''2026-01-11'', id_app = js ''k3f'',
           status = status_pending, createdAt = 1767225600001\<rparr>]\<rparr>))))) = 2
   \<and> fst (markDone (js ''i'') True
      ((App_initial Map.empty)\<lparr>appointments :=
         [\<lparr>patientName = js ''Jane Doe'', email = js ''jane@x.com'', phone = js ''555'',
           service = js ''Audiology'', date = js ''2026-01-10'', id_app = js ''i'',
           status = status_pending, createdAt = 1767225600000\<rparr>,
          \<lparr>patientName = js ''John Roe'', email = js ''john@x.com'', phone = js ''556'',
           service = js ''Audiology'', date = js ''2026-01-11'', id_app = js ''k3f'',
           status = status_pending, createdAt = 1767225600001\<rparr>]\<rparr>)) = None
   \<and> fst (markDone (js ''zz'') False
      ((App_initial Map.empty)\<lparr>appointments :=
         [\<lparr>patientName = js ''Jane Doe'', email = js ''jane@x.com'', phone = js ''555'',
           service = js ''Audiology'', date = js ''2026-01-10'', id_app = js ''i'',
           status = status_pending, createdAt = 1767225600000\<rparr>,
          \<lparr>patientName = js ''John Roe'', email = js ''john@x.com'', phone = js ''556'',
           service = js ''Audiology'', date = js ''2026-01-11'', id_app = js ''k3f'',
           status = status_pending, createdAt = 1767225600001\<rparr>]\<rparr>)) = Some QuotaExceededError
   \<and> appointments (snd (markDone (js ''zz'') False
      ((App_initial Map.empty)\<lparr>appointments :=
         [\<lparr>patientName = js ''Jane Doe'', email = js ''jane@x.com'', phone = js ''555'',
           service = js ''Audiology'', date = js ''2026-01-10'', id_app = js ''i'',
           status = status_pending, createdAt = 1767225600000\<rparr>,
          \<lparr>patientName = js ''John Roe'', email = js ''john@x.com'', phone = js ''556'',
           service = js ''Audiology'', date = js ''2026-01-11'', id_app = js ''k3f'',
           status = status_pending, createdAt = 1767225600001\<rparr>]\<rparr>)))
     = [\<lparr>patientName = js ''Jane Doe'', email = js ''jane@x.com'', phone = js ''555'',
           service = js ''Audiology'', date = js ''2026-01-10'', id_app = js ''i'',
           status = status_pending, createdAt = 1767225600000\<rparr>,
          \<lparr>patientName = js ''John Roe'', email = js ''john@x.com'', phone = js ''556'',
           service = js ''Audiology'', date = js ''2026-01-11'', id_app = js ''k3f'',
           status = status_pending, createdAt = 1767225600001\<rparr>]"
proof -
  let ?s = "(App_initial Map.empty)\<lparr>appointments :=
         [\<lparr>patientName = js ''Jane Doe'', email = js ''jane@x.com'', phone = js ''555'',
           service = js ''Audiology'', date = js ''2026-01-10'', id_app = js ''i'',
           status = status_pending, createdAt = 1767225600000\<rparr>,
          \<lparr>patientName = js ''John Roe'', email = js ''john@x.com'', phone = js ''556'',
           service = js ''Audiology'', date = js ''2026-01-11'', id_app = js ''k3f'',
           status = status_pending, createdAt = 1767225600001\<rparr>]\<rparr>"
  have present: "distinct (map id_app (appointments ?s)) \<and> js ''i'' \<in> set (map id_app (appointments ?s))"
    by (simp add: js_def)
  have absent: "js ''zz'' \<notin> set (map id_app (appointments ?s))"
    by (simp add: js_def)
  have len: "length (appointments ?s) = 2" by simp
  from markDone_removes_matching [of "js ''i''" True ?s] present len
  have "Suc (length (appointments (snd (markDone (js ''i'') True ?s)))) = 2
      \<and> fst (markDone (js ''i'') True ?s) = None" by presburger
  moreover from markDone_removes_matching [of "js ''zz''" False ?s] absent
  have "appointments (snd (markDone (js ''zz'') False ?s)) = appointments ?s
      \<and> fst (markDone (js ''zz'') False ?s) = Some QuotaExceededError" by blast
  ultimately show ?thesis by simp
qed

text \<open>
  Two records with the same id (two bookings on the draw \<open>0.i\<close>): one call of \<open>markDone\<close>
  takes the collection from size 2 to size 0, not to size 1. And when the storage does
  not take the write of that call, the snapshot still is the one of the two records.
\<close>

theorem markDone_removes_two:
  "js ''i'' \<in> set (map id_app (appointments
      (snd (addAppointment
        \<lparr>patientName = js ''Jane Doe'', email = js ''jane@x.com'', phone = js ''555'',
         service = js ''Audiology'', date = js ''2026-01-10''\<rparr>
        (js ''0.i'') 1767225600001 True
        (snd (addAppointment
           \<lparr>patientName = js ''Jane Doe'', email = js ''jane@x.com'', phone = js ''555'',
            service = js ''Audiology'', date = js ''2026-01-10''\<rparr>
           (js ''0.i'') 1767225600000 True (App_initial Map.empty)))))))
   \<and> length (appointments
      (snd (addAppointment
        \<lparr>patientName = js ''Jane Doe'', email = js ''jane@x.com'', phone = js ''555'',
         service = js ''Audiology'', date = js ''2026-01-10''\<rparr>
        (js ''0.i'') 1767225600001 True
        (snd (addAppointment
           \<lparr>patientName = js ''Jane Doe'', email = js ''jane@x.com'', phone = js ''555'',
            service = js ''Audiology'', date = js ''2026-01-10''\<rparr>
           (js ''0.i'') 1767225600000 True (App_initial Map.empty)))))) = 2
   \<and> length (appointments (snd (markDone (js ''i'') True
      (snd (addAppointment
        \<lparr>patientName = js ''Jane Doe'', email = js ''jane@x.com'', phone = js ''555'',
         service = js ''Audiology'', date = js ''2026-01-10''\<rparr>
        (js ''0.i'') 1767225600001 True
        (snd (addAppointment
           \<lparr>patientName = js ''Jane Doe'', email = js ''jane@x.com'', phone = js ''555'',
            service = js ''Audiology'', date = js ''2026-01-10''\<rparr>
           (js ''0.i'') 1767225600000 True (App_initial Map.empty)))))))) = 0
   \<and> localStorage (snd (markDone (js ''i'') False
      (snd (addAppointment
        \<lparr>patientName = js ''Jane Doe'', email = js ''jane@x.com'', phone = js ''555'',
         service = js ''Audiology'', date = js ''2026-01-10''\<rparr>
        (js ''0.i'') 1767225600001 True
        (snd (addAppointment
           \<lparr>patientName = js ''Jane Doe'', email = js ''jane@x.com'', phone = js ''555'',
            service = js ''Audiology'', date = js ''2026-01-10''\<rparr>
           (js ''0.i'') 1767225600000 True (App_initial Map.empty))))))) (js ''ent_appointments'')
     \<noteq> Some (JSON_stringify (appointments (snd (markDone (js ''i'') False
      (snd (addAppointment
        \<lparr>patientName = js ''Jane Doe'', email = js ''jane@x.com'', phone = js ''555'',
         service = js ''Audiology'', date = js ''2026-01-10''\<rparr>
        (js ''0.i'') 1767225600001 True
        (snd (addAppointment
           \<lparr>patientName = js ''Jane Doe'', email = js ''jane@x.com'', phone = js ''555'',
            service = js ''Audiology'', date = js ''2026-01-10''\<rparr>
           (js ''0.i'') 1767225600000 True (App_initial Map.empty)))))))))"
proof -
  let ?jane = "\<lparr>patientName = js ''Jane Doe'', email = js ''jane@x.com'', phone = js ''555'',
         service = js ''Audiology'', date = js ''2026-01-10''\<rparr>"
  let ?s2 = "snd (addAppointment ?jane (js ''0.i'') 1767225600001 True
        (snd (addAppointment ?jane (js ''0.i'') 1767225600000 True (App_initial Map.empty))))"
  have apps: "appointments ?s2 =
      [\<lparr>patientName = js ''Jane Doe'', email = js ''jane@x.com'', phone = js ''555'',
        service = js ''Audiology'', date = js ''2026-01-10'', id_app = js ''i'',
        status = status_pending, createdAt = 1767225600000\<rparr>,
       \<lparr>patientName = js ''Jane Doe'', email = js ''jane@x.com'', phone = js ''555'',
        service = js ''Audiology'', date = js ''2026-01-10'', id_app = js ''i'',
        status = status_pending, createdAt = 1767225600001\<rparr>]"
    by (simp add: appointments_addAppointment App_initial_def substr_def js_def)
  have gone: "appointments (snd (markDone (js ''i'') fits ?s2)) = []" for fits
    unfolding appointments_markDone apps by simp
  have snap: "localStorage ?s2 (js ''ent_appointments'') = Some (JSON_stringify (appointments ?s2))"
    by (subst storage_addAppointment) simp
  have kept: "localStorage (snd (markDone (js ''i'') False ?s2)) = localStorage ?s2"
    by (subst storage_markDone) simp
  have differ: "JSON_stringify (appointments ?s2) \<noteq> JSON_stringify []"
  proof
    assume "JSON_stringify (appointments ?s2) = JSON_stringify []"
    then have "appointments ?s2 = []" by (rule JSON_stringify_inj)
    with apps show False by simp
  qed
  have a: "js ''i'' \<in> set (map id_app (appointments ?s2))" unfolding apps by simp
  have b: "length (appointments ?s2) = 2" unfolding apps by simp
  have c: "length (appointments (snd (markDone (js ''i'') True ?s2))) = 0" unfolding gone by simp
  have d: "localStorage (snd (markDone (js ''i'') False ?s2)) (js ''ent_appointments'')
      \<noteq> Some (JSON_stringify (appointments (snd (markDone (js ''i'') False ?s2))))"
    unfolding kept gone snap using differ by simp
  from a b c d show ?thesis by (intro conjI)
qed

subsection \<open>Ids along a run\<close>

lemma step_distinct:
  assumes "distinct (map id_app (appointments s))"
    and "\<And>app r t fits. op = Add app r t fits
           \<Longrightarrow> substr 2 9 r \<notin> set (map id_app (appointments s))"
  shows "distinct (map id_app (appointments (step op s)))"
proof (cases op)
  case (Add app r t fits)
  with assms show ?thesis by (simp add: appointments_addAppointment)
next
  case (Remove i fits)
  with assms(1) show ?thesis by (simp add: appointments_markDone distinct_map_filter)
qed

lemma fresh_draws_distinct:
  "fresh_draws ops s \<Longrightarrow> distinct (map id_app (appointments s))
   \<Longrightarrow> distinct (map id_app (appointments (run ops s)))"
proof (induction ops arbitrary: s)
  case Nil
  then show ?case by simp
next
  case (Cons op ops)
  have d: "distinct (map id_app (appointments (step op s)))"
    using Cons.prems by (intro step_distinct) auto
  have f: "fresh_draws ops (step op s)"
    using Cons.prems(1) by (cases op) simp_all
  show ?case using Cons.IH [OF f d] by simp
qed

lemma fresh_draws_take: "fresh_draws ops s \<Longrightarrow> fresh_draws (take k ops) s"
proof (induction ops arbitrary: k s)
  case Nil
  then show ?case by simp
next
  case (Cons op ops)
  show ?case
  proof (cases k)
    case 0
    then show ?thesis by simp
  next
    case (Suc j)
    with Cons show ?thesis by (cases op) simp_all
  qed
qed

text \<open>
  Claim C6, as the code has it. Along every sequence of bookings and completions from
  the empty collection in which each booking draws an id that the collection does not
  hold at that moment, no two records of the collection share an id, after every prefix
  of the sequence, whether or not the storage takes the writes.
\<close>

theorem ids_unique_under_fresh_draws:
  assumes "fresh_draws ops (App_initial store)"
  shows "\<forall>k. distinct (map id_app (appointments (run (take k ops) (App_initial store))))"
proof
  fix k
  have "distinct (map id_app (appointments (App_initial store)))"
    by (simp add: App_initial_def)
  with fresh_draws_take [OF assms, of k] show
    "distinct (map id_app (appointments (run (take k ops) (App_initial store))))"
    by (rule fresh_draws_distinct)
qed

theorem ids_unique_under_fresh_draws_witness:
  "distinct (map id_app (appointments (run
      [Add \<lparr>patientName = js ''Jane Doe'', email = js ''jane@x.com'', phone = js ''555'',
            service = js ''Audiology'', date = js ''2026-01-10''\<rparr> (js ''0.i'') 1767225600000 True,
       Add \<lparr>patientName = js ''John Roe'', email = js ''john@x.com'', phone = js ''556'',
            service = js ''Audiology'', date = js ''2026-01-11''\<rparr> (js ''0.k3f'') 1767225600001 False,
       Remove (js ''i'') True]
      (App_initial Map.empty))))"
proof -
  let ?ops = "[Add \<lparr>patientName = js ''Jane Doe'', email = js ''jane@x.com'', phone = js ''555'',
            service = js ''Audiology'', date = js ''2026-01-10''\<rparr> (js ''0.i'') 1767225600000 True,
       Add \<lparr>patientName = js ''John Roe'', email = js ''john@x.com'', phone = js ''556'',
            service = js ''Audiology'', date = js ''2026-01-11''\<rparr> (js ''0.k3f'') 1767225600001 False,
       Remove (js ''i'') True]"
  have f: "fresh_draws ?ops (App_initial Map.empty)"
    by (simp add: appointments_addAppointment App_initial_def substr_def js_def)
  from ids_unique_under_fresh_draws [OF f] have
    "distinct (map id_app (appointments (run (take 3 ?ops) (App_initial Map.empty))))"
    by (rule spec)
  then show ?thesis by simp
qed

text \<open>
  Without that condition the ids need not be unique: two bookings on the same draw
  leave two records with the same id.
\<close>

theorem ids_collide_on_equal_draws:
  "\<not> distinct (map id_app (appointments (run
      [Add \<lparr>patientName = js ''Jane Doe'', email = js ''jane@x.com'', phone = js ''555'',
            service = js ''Audiology'', date = js ''2026-01-10''\<rparr> (js ''0.i'') 1767225600000 True,
       Add \<lparr>patientName = js ''John Roe'', email = js ''john@x.com'', phone = js ''556'',
            service = js ''Audiology'', date = js ''2026-01-11''\<rparr> (js ''0.i'') 1767225600001 True]
      (App_initial Map.empty))))"
  by (simp add: appointments_addAppointment App_initial_def)

subsection \<open>Reloading the page\<close>

lemma JSON_stringify_not_empty: "JSON_stringify apps \<noteq> []"
  by (simp add: JSON_stringify_def js_def)

lemma load_effect_snapshot:
  assumes "localStorage s (js ''ent_appointments'') = Some (JSON_stringify apps)"
  shows "load_effect s = Inr (s\<lparr>appointments := apps\<rparr>)"
  unfolding load_effect_def
  by (simp only: assms option.case JSON_stringify_not_empty if_False JSON_parse_stringify)

lemma reload_saveAppointments:
  "load_effect (App_initial (localStorage (snd (saveAppointments apps True s))))
     = Inr ((App_initial (localStorage (snd (saveAppointments apps True s))))
             \<lparr>appointments := apps\<rparr>)"
  by (rule load_effect_snapshot) (simp add: App_initial_def storage_saveAppointments)

text \<open>
  Claim C7, as the code has it. When the storage takes the write of a booking on the
  empty collection, the page reloaded over the storage it left (a fresh \<open>App\<close>, then the
  effect that loads) holds exactly the record added, with status \<open>pending\<close>; and whatever
  collection \<open>saveAppointments\<close> wrote with success is the collection a reload holds.
\<close>

theorem add_then_reload:
  "(fst (addAppointment app r t fits (App_initial store)) = None \<longrightarrow>
      map_sum id appointments
        (load_effect (App_initial
           (localStorage (snd (addAppointment app r t fits (App_initial store))))))
      = Inr [\<lparr>patientName = patientName app, email = email app, phone = phone app,
              service = service app, date = date app, id_app = substr 2 9 r,
              status = status_pending, createdAt = t\<rparr>])
   \<and> (fst (saveAppointments apps fits s) = None \<longrightarrow>
      map_sum id appointments
        (load_effect (App_initial (localStorage (snd (saveAppointments apps fits s)))))
      = Inr apps)"
proof -
  have fits: "fits" if "fst (saveAppointments xs fits u) = None" for xs u
    using that by (simp add: thrown_saveAppointments split: if_splits)
  have save: "map_sum id appointments
        (load_effect (App_initial (localStorage (snd (saveAppointments xs fits u))))) = Inr xs"
    if "fst (saveAppointments xs fits u) = None" for xs u
    using fits [OF that] by (simp add: reload_saveAppointments)
  have add: "addAppointment app r t fits (App_initial store)
      = saveAppointments
          [\<lparr>patientName = patientName app, email = email app, phone = phone app,
            service = service app, date = date app, id_app = substr 2 9 r,
            status = status_pending, createdAt = t\<rparr>] fits (App_initial store)"
    by (simp add: addAppointment_def App_initial_def)
  show ?thesis
    unfolding add using save by blast
qed

theorem add_then_reload_witness:
  "map_sum id appointments
     (load_effect (App_initial
        (localStorage (snd (addAppointment
           \<lparr>patientName = js ''Jane Doe'', email = js ''jane@x.com'', phone = js ''555'',
            service = js ''Audiology'', date = js ''2026-01-10''\<rparr>
           (js ''0.i'') 1767225600000 True (App_initial Map.empty))))))
   = Inr [\<lparr>patientName = js ''Jane Doe'', email = js ''jane@x.com'', phone = js ''555'',
           service = js ''Audiology'', date = js ''2026-01-10'', id_app = js ''i'',
           status = status_pending, createdAt = 1767225600000\<rparr>]"
proof -
  let ?jane = "\<lparr>patientName = js ''Jane Doe'', email = js ''jane@x.com'', phone = js ''555'',
            service = js ''Audiology'', date = js ''2026-01-10''\<rparr>"
  have ok: "fst (addAppointment ?jane (js ''0.i'') 1767225600000 True (App_initial Map.empty)) = None"
    by (simp add: thrown_addAppointment)
  have i: "substr 2 9 (js ''0.i'') = js ''i''"
    by (simp add: substr_def js_def)
  from add_then_reload [of ?jane "js ''0.i''" 1767225600000 True Map.empty] ok
  show ?thesis unfolding i by simp
qed

text \<open>
  When the storage does not take the write, the record is in the collection of the
  running page and in no snapshot: the page reloaded holds the empty collection.
\<close>

theorem add_refused_then_reload_empty:
  "appointments (snd (addAppointment
       \<lparr>patientName = js ''Jane Doe'', email = js ''jane@x.com'', phone = js ''555'',
        service = js ''Audiology'', date = js ''2026-01-10''\<rparr>
       (js ''0.i'') 1767225600000 False (App_initial Map.empty)))
     = [\<lparr>patientName = js ''Jane Doe'', email = js ''jane@x.com'', phone = js ''555'',
         service = js ''Audiology'', date = js ''2026-01-10'', id_app = js ''i'',
         status = status_pending, createdAt = 1767225600000\<rparr>]
   \<and> map_sum id appointments
     (load_effect (App_initial
        (localStorage (snd (addAppointment
           \<lparr>patientName = js ''Jane Doe'', email = js ''jane@x.com'', phone = js ''555'',
            service = js ''Audiology'', date = js ''2026-01-10''\<rparr>
           (js ''0.i'') 1767225600000 False (App_initial Map.empty))))))
   = Inr []"
proof -
  have i: "substr 2 9 (js ''0.i'') = js ''i''"
    by (simp add: substr_def js_def)
  show ?thesis
    by (simp add: appointments_addAppointment storage_addAppointment i)
       (simp add: App_initial_def load_effect_def)
qed

text \<open>
  Claim C8. Three bookings on the empty collection leave the three records in the
  order of the bookings, which is the order in which the dashboard lists them.
\<close>

theorem insertion_order_preserved:
  "appointments
     (snd (addAppointment c rc tc fc
        (snd (addAppointment b rb tb fb
           (snd (addAppointment a ra ta fa (App_initial store)))))))
   = [\<lparr>patientName = patientName a, email = email a, phone = phone a, service = service a,
        date = date a, id_app = substr 2 9 ra, status = status_pending, createdAt = ta\<rparr>,
      \<lparr>patientName = patientName b, email = email b, phone = phone b, service = service b,
        date = date b, id_app = substr 2 9 rb, status = status_pending, createdAt = tb\<rparr>,
      \<lparr>patientName = patientName c, email = email c, phone = phone c, service = service c,
        date = date c, id_app = substr 2 9 rc, status = status_pending, createdAt = tc\<rparr>]"
  by (simp add: appointments_addAppointment App_initial_def)

subsection \<open>The scenario of a booking and its completion\<close>

lemma substr_not_empty: "2 < length r \<Longrightarrow> substr 2 9 r \<noteq> []"
  by (simp add: substr_def)

text \<open>
  Claim C9, as the code has it. From the empty collection, the booking of Jane Doe's
  draft leaves one record with status \<open>pending\<close> and \<open>createdAt\<close> equal to the clock
  reading of the call; its id is not empty whenever the text of the random draw has more
  than two code units, which is the case for every draw but zero; and completing that
  id empties the collection.
\<close>

theorem scenario_add_then_remove:
  "appointments (snd (addAppointment
       \<lparr>patientName = js ''Jane Doe'', email = js ''jane@x.com'', phone = js ''555'',
        service = js ''Audiology'', date = js ''2026-01-10''\<rparr> r t fits (App_initial store)))
     = [\<lparr>patientName = js ''Jane Doe'', email = js ''jane@x.com'', phone = js ''555'',
         service = js ''Audiology'', date = js ''2026-01-10'', id_app = substr 2 9 r,
         status = status_pending, createdAt = t\<rparr>]
   \<and> (2 < length r \<longrightarrow> substr 2 9 r \<noteq> [])
   \<and> appointments (snd (markDone (substr 2 9 r) fits' (snd (addAppointment
       \<lparr>patientName = js ''Jane Doe'', email = js ''jane@x.com'', phone = js ''555'',
        service = js ''Audiology'', date = js ''2026-01-10''\<rparr> r t fits (App_initial store))))) = []"
  by (simp add: appointments_addAppointment appointments_markDone App_initial_def substr_not_empty)

theorem scenario_add_then_remove_witness:
  "id_app (hd (appointments (snd (addAppointment
       \<lparr>patientName = js ''Jane Doe'', email = js ''jane@x.com'', phone = js ''555'',
        service = js ''Audiology'', date = js ''2026-01-10''\<rparr>
       (js ''0.k3f9x2'') 1767225600000 True (App_initial Map.empty))))) \<noteq> []"
proof -
  have l: "2 < length (js ''0.k3f9x2'')" by (simp add: js_def)
  from scenario_add_then_remove [of "js ''0.k3f9x2''" 1767225600000 True Map.empty] l
  show ?thesis by simp
qed

text \<open>
  The draw zero is written \<open>0\<close>, which has nothing after its first two code units: the
  record gets the empty id.
\<close>

theorem scenario_zero_draw_empty_id:
  "id_app (hd (appointments (snd (addAppointment
       \<lparr>patientName = js ''Jane Doe'', email = js ''jane@x.com'', phone = js ''555'',
        service = js ''Audiology'', date = js ''2026-01-10''\<rparr>
       (js ''0'') 1767225600000 True (App_initial Map.empty))))) = []"
  by (simp add: appointments_addAppointment App_initial_def substr_def js_def)

lemma count_list_filter:
  "count_list (filter P xs) a = (if P a then count_list xs a else 0)"
  by (induction xs) auto

text \<open>
  Claim C10. \<open>markDone i\<close> removes every record whose id is \<open>i\<close>, duplicates included, in
  one call; the records that remain are the other ones, each as often as before, in
  their former order.
\<close>

theorem markDone_all_matching_order_kept:
  "(\<forall>a \<in> set (appointments (snd (markDone i fits s))). id_app a \<noteq> i)
   \<and> subseq (appointments (snd (markDone i fits s))) (appointments s)
   \<and> (\<forall>a. id_app a \<noteq> i \<longrightarrow>
          count_list (appointments (snd (markDone i fits s))) a = count_list (appointments s) a)"
  by (simp add: appointments_markDone count_list_filter)

theorem markDone_all_matching_order_kept_witness:
  "subseq
     (appointments (snd (markDone (js ''i'') True
        ((App_initial Map.empty)\<lparr>appointments :=
           [\<lparr>patientName = js ''Jane Doe'', email = js ''jane@x.com'', phone = js ''555'',
             service = js ''Audiology'', date = js ''2026-01-10'', id_app = js ''i'',
             status = status_pending, createdAt = 1767225600000\<rparr>,
            \<lparr>patientName = js ''John Roe'', email = js ''john@x.com'', phone = js ''556'',
             service = js ''Audiology'', date = js ''2026-01-11'', id_app = js ''k3f'',
             status = status_pending, createdAt = 1767225600001\<rparr>,
            \<lparr>patientName = js ''Jane Doe'', email = js ''jane@x.com'', phone = js ''555'',
             service = js ''Throat & Voice'', date = js ''2026-01-12'', id_app = js ''i'',
             status = status_pending, createdAt = 1767225600002\<rparr>]\<rparr>))))
     [\<lparr>patientName = js ''Jane Doe'', email = js ''jane@x.com'', phone = js ''555'',
             service = js ''Audiology'', date = js ''2026-01-10'', id_app = js ''i'',
             status = status_pending, createdAt = 1767225600000\<rparr>,
            \<lparr>patientName = js ''John Roe'', email = js ''john@x.com'', phone = js ''556'',
             service = js ''Audiology'', date = js ''2026-01-11'', id_app = js ''k3f'',
             status = status_pending, createdAt = 1767225600001\<rparr>,
            \<lparr>patientName = js ''Jane Doe'', email = js ''jane@x.com'', phone = js ''555'',
             service = js ''Throat & Voice'', date = js ''2026-01-12'', id_app = js ''i'',
             status = status_pending, createdAt = 1767225600002\<rparr>]
   \<and> count_list
     (appointments (snd (markDone (js ''i'') True
        ((App_initial Map.empty)\<lparr>appointments :=
           [\<lparr>patientName = js ''Jane Doe'', email = js ''jane@x.com'', phone = js ''555'',
             service = js ''Audiology'', date = js ''2026-01-10'', id_app = js ''i'',
             status = status_pending, createdAt = 1767225600000\<rparr>,
            \<lparr>patientName = js ''John Roe'', email = js ''john@x.com'', phone = js ''556'',
             service = js ''Audiology'', date = js ''2026-01-11'', id_app = js ''k3f'',
             status = status_pending, createdAt = 1767225600001\<rparr>,
            \<lparr>patientName = js ''Jane Doe'', email = js ''jane@x.com'', phone = js ''555'',
             service = js ''Throat & Voice'', date = js ''2026-01-12'', id_app = js ''i'',
             status = status_pending, createdAt = 1767225600002\<rparr>]\<rparr>))))
      \<lparr>patientName = js ''John Roe'', email = js ''john@x.com'', phone = js ''556'',
             service = js ''Audiology'', date = js ''2026-01-11'', id_app = js ''k3f'',
             status = status_pending, createdAt = 1767225600001\<rparr> = 1"
proof -
  let ?john = "\<lparr>patientName = js ''John Roe'', email = js ''john@x.com'', phone = js ''556'',
             service = js ''Audiology'', date = js ''2026-01-11'', id_app = js ''k3f'',
             status = status_pending, createdAt = 1767225600001\<rparr>"
  let ?s = "(App_initial Map.empty)\<lparr>appointments :=
           [\<lparr>patientName = js ''Jane Doe'', email = js ''jane@x.com'', phone = js ''555'',
             service = js ''Audiology'', date = js ''2026-01-10'', id_app = js ''i'',
             status = status_pending, createdAt = 1767225600000\<rparr>,
            ?john,
            \<lparr>patientName = js ''Jane Doe'', email = js ''jane@x.com'', phone = js ''555'',
             service = js ''Throat & Voice'', date = js ''2026-01-12'', id_app = js ''i'',
             status = status_pending, createdAt = 1767225600002\<rparr>]\<rparr>"
  have other: "id_app ?john \<noteq> js ''i''" by (simp add: js_def)
  have before: "count_list (appointments ?s) ?john = 1" by (simp add: js_def)
  have apps: "appointments ?s =
     [\<lparr>patientName = js ''Jane Doe'', email = js ''jane@x.com'', phone = js ''555'',
             service = js ''Audiology'', date = js ''2026-01-10'', id_app = js ''i'',
             status = status_pending, createdAt = 1767225600000\<rparr>,
            ?john,
            \<lparr>patientName = js ''Jane Doe'', email = js ''jane@x.com'', phone = js ''555'',
             service = js ''Throat & Voice'', date = js ''2026-01-12'', id_app = js ''i'',
             status = status_pending, createdAt = 1767225600002\<rparr>]" by simp
  from markDone_all_matching_order_kept [of "js ''i''" True ?s] other before
  have "subseq (appointments (snd (markDone (js ''i'') True ?s))) (appointments ?s)
      \<and> count_list (appointments (snd (markDone (js ''i'') True ?s))) ?john = 1"
    by metis
  then show ?thesis unfolding apps .
qed

end
